theory Spec2Isabelle
  imports Main "HOL-Library.AList"
begin

section \<open>JavaScript values\<close>

text \<open>
  The values that cross the adapter and the client are JSON values. An object is kept as
  the list of its own enumerable entries, in the order \<^verbatim>\<open>Object.entries\<close> yields them,
  and is read by key (\<open>map_of\<close>); its keys are distinct. Keys that are array indices,
  which JavaScript enumerates before all others, are not moved to the front when an object
  is built here, so an object built by the code is compared by its keys and values. A
  number is an integer (fractions and the exponent notation of very large numbers are
  outside the model), and a string is a list of characters, one per code unit (ASCII
  text).
\<close>

datatype json =
    JNull
  | JBool bool
  | JNum int
  | JStr string
  | JArr "json list"
  | JObj "(string \<times> json) list"

type_synonym obj = "(string \<times> json) list"

text \<open>A thrown value: an \<^verbatim>\<open>Error\<close> instance with its message, or any other value.\<close>

datatype thrown = Error string | NonError json

subsection \<open>Numbers and strings\<close>

definition digit :: "nat \<Rightarrow> char" where
  "digit d = ''0123456789'' ! d"

fun show_nat :: "nat \<Rightarrow> string" where
  "show_nat n = (if n < 10 then [digit n] else show_nat (n div 10) @ [digit (n mod 10)])"

declare show_nat.simps [simp del]

definition show_int :: "int \<Rightarrow> string" where
  "show_int i = (if i < 0 then CHR ''-'' # show_nat (nat (- i)) else show_nat (nat i))"

text \<open>\<^verbatim>\<open>xs.join(",")\<close> on strings already converted.\<close>

fun join_comma :: "string list \<Rightarrow> string" where
  "join_comma [] = []"
| "join_comma [s] = s"
| "join_comma (s # t # ss) = s @ '','' @ join_comma (t # ss)"

text \<open>
  \<^verbatim>\<open>String(v)\<close>, also the conversion of a template literal and of the argument of
  \<^verbatim>\<open>new Error(v)\<close>. An array joins its elements with commas, \<^verbatim>\<open>null\<close> elements
  as the empty string.
\<close>

fun ToString :: "json \<Rightarrow> string" where
  "ToString JNull = ''null''"
| "ToString (JBool b) = (if b then ''true'' else ''false'')"
| "ToString (JNum n) = show_int n"
| "ToString (JStr s) = s"
| "ToString (JArr xs) = join_comma (map (\<lambda>x. if x = JNull then [] else ToString x) xs)"
| "ToString (JObj kvs) = ''[object Object]''"

text \<open>Truthiness: \<^verbatim>\<open>null\<close>, \<^verbatim>\<open>false\<close>, \<^verbatim>\<open>0\<close> and \<^verbatim>\<open>""\<close> are falsy.\<close>

fun truthy :: "json \<Rightarrow> bool" where
  "truthy JNull = False"
| "truthy (JBool b) = b"
| "truthy (JNum n) = (n \<noteq> 0)"
| "truthy (JStr s) = (s \<noteq> [])"
| "truthy (JArr xs) = True"
| "truthy (JObj kvs) = True"

text \<open>A value that may be \<^verbatim>\<open>undefined\<close> is an option; \<^verbatim>\<open>undefined\<close> is falsy.\<close>

definition truthy_opt :: "json option \<Rightarrow> bool" where
  "truthy_opt v = (case v of None \<Rightarrow> False | Some x \<Rightarrow> truthy x)"

subsection \<open>Objects\<close>

text \<open>\<^verbatim>\<open>o[key] = value\<close>: an existing key keeps its place, a new key goes last.\<close>

definition set_property :: "string \<Rightarrow> json \<Rightarrow> obj \<Rightarrow> obj" where
  "set_property key v ob = AList.update key v ob"

text \<open>Copying entries into an object one by one, as a spread and \<^verbatim>\<open>Object.fromEntries\<close> do.\<close>

fun assign_entries :: "obj \<Rightarrow> (string \<times> json) list \<Rightarrow> obj" where
  "assign_entries target [] = target"
| "assign_entries target ((k, v) # es) = assign_entries (set_property k v target) es"

definition fromEntries :: "(string \<times> json) list \<Rightarrow> obj" where
  "fromEntries es = assign_entries [] es"

text \<open>
  \<^verbatim>\<open>Object.entries(v)\<close>, the own enumerable properties a spread copies: the entries of an
  object, the indexed elements of an array, the indexed characters of a string, and
  nothing for \<^verbatim>\<open>null\<close>, a boolean or a number.
\<close>

fun indexed :: "nat \<Rightarrow> json list \<Rightarrow> (string \<times> json) list" where
  "indexed i [] = []"
| "indexed i (x # xs) = (show_nat i, x) # indexed (Suc i) xs"

fun own_entries :: "json \<Rightarrow> (string \<times> json) list" where
  "own_entries (JObj kvs) = kvs"
| "own_entries (JArr xs) = indexed 0 xs"
| "own_entries (JStr s) = indexed 0 (map (\<lambda>c. JStr [c]) s)"
| "own_entries JNull = []"
| "own_entries (JBool b) = []"
| "own_entries (JNum n) = []"

text \<open>Spreading a value that may be \<^verbatim>\<open>undefined\<close>: \<^verbatim>\<open>undefined\<close> contributes nothing.\<close>

definition spread_entries :: "json option \<Rightarrow> (string \<times> json) list" where
  "spread_entries v = (case v of None \<Rightarrow> [] | Some x \<Rightarrow> own_entries x)"

text \<open>The object literal \<^verbatim>\<open>{ ...a, ...b }\<close>.\<close>

definition spread2 :: "json option \<Rightarrow> json option \<Rightarrow> obj" where
  "spread2 a b = assign_entries (assign_entries [] (spread_entries a)) (spread_entries b)"

subsection \<open>String methods\<close>

text \<open>\<^verbatim>\<open>s.startsWith(p)\<close> and \<^verbatim>\<open>s.includes(p)\<close>.\<close>

fun startsWith :: "string \<Rightarrow> string \<Rightarrow> bool" where
  "startsWith s [] = True"
| "startsWith [] (p # ps) = False"
| "startsWith (c # s) (p # ps) = (c = p \<and> startsWith s ps)"

fun includes_str :: "string \<Rightarrow> string \<Rightarrow> bool" where
  "includes_str [] p = (p = [])"
| "includes_str (c # s) p = (startsWith (c # s) p \<or> includes_str s p)"

text \<open>
  The expansion of a replacement string when the pattern is a string (no captures):
  \<^verbatim>\<open>$$\<close> is a dollar sign, \<^verbatim>\<open>$&\<close> the matched text, \<^verbatim>\<open>$`\<close> the text before the match,
  \<^verbatim>\<open>$'\<close> the text after it; any other character stands for itself, also a dollar sign
  followed by anything else.
\<close>

fun GetSubstitution :: "string \<Rightarrow> string \<Rightarrow> string \<Rightarrow> string \<Rightarrow> string" where
  "GetSubstitution matched pre post [] = []"
| "GetSubstitution matched pre post [c] = [c]"
| "GetSubstitution matched pre post (c # d # r) =
     (if c = CHR ''$'' then
        (if d = CHR ''$'' then CHR ''$'' # GetSubstitution matched pre post r
         else if d = CHR ''&'' then matched @ GetSubstitution matched pre post r
         else if d = CHR 0x60 then pre @ GetSubstitution matched pre post r
         else if d = CHR 0x27 then post @ GetSubstitution matched pre post r
         else c # GetSubstitution matched pre post (d # r))
      else c # GetSubstitution matched pre post (d # r))"

text \<open>
  \<^verbatim>\<open>s.replace(pat, rep)\<close> with a string pattern: the first occurrence of \<open>pat\<close> is
  replaced by the expansion of \<open>rep\<close>, and a string without an occurrence is returned as
  it is. \<open>replace_from pre s\<close> searches \<open>s\<close>, the text \<open>pre\<close> already passed.
\<close>

fun replace_from :: "string \<Rightarrow> string \<Rightarrow> string \<Rightarrow> string \<Rightarrow> string" where
  "replace_from pre [] pat rep =
     (if pat = [] then pre @ GetSubstitution [] pre [] rep else pre)"
| "replace_from pre (c # s) pat rep =
     (if startsWith (c # s) pat
      then pre @ GetSubstitution pat pre (drop (length pat) (c # s)) rep
             @ drop (length pat) (c # s)
      else replace_from (pre @ [c]) s pat rep)"

definition replace :: "string \<Rightarrow> string \<Rightarrow> string \<Rightarrow> string" where
  "replace s pat rep = replace_from [] s pat rep"

text \<open>The template literal \<^verbatim>\<open>`[${key}]`\<close>.\<close>

definition placeholder :: "string \<Rightarrow> string" where
  "placeholder key = ''['' @ key @ '']''"

section \<open>The request adapter (lib/api-builder.ts)\<close>

text \<open>
  What the adapter reads of a \<^verbatim>\<open>NextRequest\<close>: the entries of
  \<^verbatim>\<open>new URL(req.url).searchParams\<close>, in order and with repeated keys, and the outcome
  of \<^verbatim>\<open>req.json()\<close>, \<open>None\<close> when that promise rejects.
\<close>

record request =
  searchParams :: "(string \<times> string) list"
  json_body :: "json option"

text \<open>The optional second argument \<^verbatim>\<open>context?: { params: any }\<close>.\<close>

record route_context =
  params :: "json option"

definition context_params :: "route_context option \<Rightarrow> json option" where
  "context_params context = (case context of None \<Rightarrow> None | Some c \<Rightarrow> params c)"

text \<open>The second argument of a handler, \<^verbatim>\<open>{ req, params: context?.params }\<close>.\<close>

record handler_context =
  hc_req :: request
  hc_params :: "json option"

text \<open>
  What a handler function, awaited, returns, as \<^verbatim>\<open>Response.json\<close> meets it: a value it
  serialises, given as the JSON it serialises to, or a value on which it throws
  (\<^verbatim>\<open>undefined\<close>, the result of a handler that returns nothing, a \<^verbatim>\<open>BigInt\<close>, a cyclic
  object), given with what it throws. A handler function that throws or rejects is \<open>Inl\<close>.
\<close>

datatype returned = Serialisable json | Unserialisable thrown

type_synonym handler_fn = "json \<Rightarrow> handler_context \<Rightarrow> thrown + returned"

text \<open>\<^verbatim>\<open>Response.json(result, { status: 200 })\<close>: the body, or what the call throws.\<close>

definition Response_json :: "returned \<Rightarrow> thrown + json" where
  "Response_json r = (case r of Serialisable v \<Rightarrow> Inr v | Unserialisable e \<Rightarrow> Inl e)"

text \<open>
  The outcome of \<^verbatim>\<open>schema.safeParse\<close>: the validated data, or the issues of the error,
  each issue the object the validator reports (its path and message among its fields).
  The validator is a parameter; a validator that throws is \<open>Inl\<close>.
\<close>

datatype safe_parse_result = Success json | Failure "json list"

type_synonym schema = "json \<Rightarrow> thrown + safe_parse_result"

text \<open>
  \<^verbatim>\<open>type Handler = RegularHandler | SchemaHandler\<close>; \<^verbatim>\<open>withSchema\<close> builds the second
  form.
\<close>

datatype handler = Regular handler_fn | Schema schema handler_fn

definition withSchema :: "schema \<Rightarrow> handler_fn \<Rightarrow> handler" where
  "withSchema sch h = Schema sch h"

text \<open>
  The argument of \<^verbatim>\<open>createApiHandler\<close>: an object from method names to handlers. A key
  may be present with no handler behind it (\<^verbatim>\<open>undefined\<close> or another falsy value), which is
  \<open>None\<close>; \<^verbatim>\<open>handlers[method]\<close> is then falsy, as it is for a key that is absent.
\<close>

type_synonym handlers = "(string \<times> handler option) list"

definition lookup_handler :: "handlers \<Rightarrow> string \<Rightarrow> handler option" where
  "lookup_handler hs method = (case map_of hs method of Some (Some h) \<Rightarrow> Some h | _ \<Rightarrow> None)"

record response =
  status :: nat
  body :: json

text \<open>
  What a run of the adapter does besides answering: the calls of the validator and of the
  handler function with their arguments, and the \<^verbatim>\<open>console.error\<close> of the catch block.
\<close>

datatype event = SafeParse json | HandlerCall json | ConsoleError thrown

record outcome =
  response :: response
  trace :: "event list"

text \<open>Lines 64 to 71: the input before validation.\<close>

definition queryParams :: "request \<Rightarrow> obj" where
  "queryParams req = fromEntries (map (\<lambda>(k, v). (k, JStr v)) (searchParams req))"

definition parsed_body :: "request \<Rightarrow> json" where
  "parsed_body req = (case json_body req of None \<Rightarrow> JObj [] | Some b \<Rightarrow> b)"

definition rawInput :: "string \<Rightarrow> request \<Rightarrow> route_context option \<Rightarrow> obj" where
  "rawInput method req context =
     (if method = ''GET'' \<or> method = ''DELETE''
      then spread2 (Some (JObj (queryParams req))) (context_params context)
      else spread2 (Some (parsed_body req)) (context_params context))"

text \<open>The catch block, lines 106 to 115, after the events \<open>tr\<close> of the try block.\<close>

definition error_message :: "thrown \<Rightarrow> string" where
  "error_message e = (case e of Error m \<Rightarrow> m | NonError v \<Rightarrow> ''Internal server error'')"

definition catch_error :: "event list \<Rightarrow> thrown \<Rightarrow> outcome" where
  "catch_error tr e =
     \<lparr>response = \<lparr>status = 500, body = JObj [(''error'', JStr (error_message e))]\<rparr>,
      trace = tr @ [ConsoleError e]\<rparr>"

text \<open>
  \<^verbatim>\<open>createMethod(method)\<close>: the route function for the key \<open>method\<close>, applied to a
  request and its context. The handler is looked up under the key the function was created
  for. The handler call and \<^verbatim>\<open>Response.json\<close> of its result are both inside the try
  block.
\<close>

definition createMethod :: "handlers \<Rightarrow> string \<Rightarrow> request \<Rightarrow> route_context option \<Rightarrow> outcome" where
  "createMethod hs method req context =
     (case lookup_handler hs method of
        None \<Rightarrow>
          \<lparr>response = \<lparr>status = 405,
                        body = JObj [(''error'', JStr (''Method '' @ method @ '' not allowed''))]\<rparr>,
           trace = []\<rparr>
      | Some handlerDef \<Rightarrow>
          (let input = JObj (rawInput method req context);
               hc = \<lparr>hc_req = req, hc_params = context_params context\<rparr>
           in case handlerDef of
                Schema sch h \<Rightarrow>
                  (case sch input of
                     Inl e \<Rightarrow> catch_error [SafeParse input] e
                   | Inr (Failure issues) \<Rightarrow>
                       \<lparr>response = \<lparr>status = 400,
                                     body = JObj [(''error'', JStr ''Validation failed''),
                                                  (''details'', JArr issues)]\<rparr>,
                        trace = [SafeParse input]\<rparr>
                   | Inr (Success d) \<Rightarrow>
                       (case h d hc of
                          Inl e \<Rightarrow> catch_error [SafeParse input, HandlerCall d] e
                        | Inr result \<Rightarrow>
                            (case Response_json result of
                               Inl e \<Rightarrow> catch_error [SafeParse input, HandlerCall d] e
                             | Inr b \<Rightarrow>
                                 \<lparr>response = \<lparr>status = 200, body = b\<rparr>,
                                  trace = [SafeParse input, HandlerCall d]\<rparr>)))
              | Regular h \<Rightarrow>
                  (case h input hc of
                     Inl e \<Rightarrow> catch_error [HandlerCall input] e
                   | Inr result \<Rightarrow>
                       (case Response_json result of
                          Inl e \<Rightarrow> catch_error [HandlerCall input] e
                        | Inr b \<Rightarrow>
                            \<lparr>response = \<lparr>status = 200, body = b\<rparr>,
                             trace = [HandlerCall input]\<rparr>))))"

text \<open>
  \<^verbatim>\<open>createApiHandler(handlers)\<close>: one route function per key of \<open>handlers\<close>
  (\<^verbatim>\<open>Object.keys(handlers).forEach\<close>), and none for any other method name. The property
  \<^verbatim>\<open>__handlers\<close> is assigned last and holds the handlers object, also when that name is a
  key.
\<close>

definition createApiHandler ::
  "handlers \<Rightarrow> string \<Rightarrow> (request \<Rightarrow> route_context option \<Rightarrow> outcome) option" where
  "createApiHandler hs method =
     (if method = ''__handlers'' then None
      else if method \<in> set (map fst hs) then Some (createMethod hs method)
      else None)"

section \<open>Route helpers (src/route-helpers.ts)\<close>

text \<open>
  \<^verbatim>\<open>buildRoute(path, params)\<close>: a \<^verbatim>\<open>reduce\<close> over \<^verbatim>\<open>Object.entries(params)\<close>, the
  entries given in their order.
\<close>

definition buildRoute :: "string \<Rightarrow> (string \<times> string) list \<Rightarrow> string" where
  "buildRoute path ps = foldl (\<lambda>route (key, v). replace route (placeholder key) v) path ps"

section \<open>The client (typed client, second part of lib/api-builder.ts)\<close>

subsection \<open>The fetcher\<close>

text \<open>
  The fields of \<^verbatim>\<open>RequestInit\<close> the client sets, each absent or present. The body is kept
  as the value that \<^verbatim>\<open>JSON.stringify\<close> serialises.
\<close>

record request_init =
  init_method :: "string option"
  init_headers :: "(string \<times> string) list option"
  init_body :: "json option"

text \<open>
  What the fetcher reads of the response of \<^verbatim>\<open>fetch\<close>: \<^verbatim>\<open>res.ok\<close> and the outcome of
  \<^verbatim>\<open>res.json()\<close>. The network is a parameter; a \<^verbatim>\<open>fetch\<close> that rejects is \<open>Inl\<close>.
\<close>

record http_response =
  ok :: bool
  json_result :: "thrown + json"

type_synonym fetch = "string \<Rightarrow> request_init \<Rightarrow> thrown + http_response"

text \<open>
  The second argument of \<^verbatim>\<open>fetch\<close>:
  \<^verbatim>\<open>{ headers: { "Content-Type": "application/json", ...options?.headers }, ...options }\<close>.
\<close>

definition fetch_init :: "request_init option \<Rightarrow> request_init" where
  "fetch_init options =
     (let merged = fold (\<lambda>(k, v). AList.update k v)
                     (case options of
                        None \<Rightarrow> []
                      | Some opts \<Rightarrow> (case init_headers opts of None \<Rightarrow> [] | Some h \<Rightarrow> h))
                     [(''Content-Type'', ''application/json'')]
      in case options of
           None \<Rightarrow> \<lparr>init_method = None, init_headers = Some merged, init_body = None\<rparr>
         | Some opts \<Rightarrow>
             \<lparr>init_method = init_method opts,
              init_headers = (case init_headers opts of None \<Rightarrow> Some merged | Some h \<Rightarrow> Some h),
              init_body = init_body opts\<rparr>)"

text \<open>
  \<^verbatim>\<open>error.error\<close> on the parsed error body: reading a property of \<^verbatim>\<open>null\<close> throws a
  \<^verbatim>\<open>TypeError\<close> (the message is the engine's), an object yields the property or
  \<^verbatim>\<open>undefined\<close>, and any other JSON value has no such property.
\<close>

definition null_property_message :: string where
  "null_property_message =
     ''Cannot read properties of null (reading '' @ [CHR 0x27] @ ''error'' @ [CHR 0x27] @ '')''"

definition error_property :: "json \<Rightarrow> thrown + json option" where
  "error_property v =
     (case v of
        JNull \<Rightarrow> Inl (Error null_property_message)
      | JObj kvs \<Rightarrow> Inr (map_of kvs ''error'')
      | _ \<Rightarrow> Inr None)"

definition fetcher :: "fetch \<Rightarrow> string \<Rightarrow> request_init option \<Rightarrow> thrown + json" where
  "fetcher fetch url options =
     (case fetch url (fetch_init options) of
        Inl e \<Rightarrow> Inl e
      | Inr res \<Rightarrow>
          if \<not> ok res then
            (let error = (case json_result res of
                            Inl e \<Rightarrow> JObj [(''error'', JStr ''Network error'')]
                          | Inr v \<Rightarrow> v)
             in case error_property error of
                  Inl e \<Rightarrow> Inl e
                | Inr None \<Rightarrow> Inl (Error ''Request failed'')
                | Inr (Some p) \<Rightarrow>
                    Inl (Error (if truthy p then ToString p else ''Request failed'')))
          else json_result res)"

subsection \<open>The mutation function\<close>

text \<open>\<^verbatim>\<open>typeof v === "object"\<close>.\<close>

fun typeof_object :: "json \<Rightarrow> bool" where
  "typeof_object JNull = True"
| "typeof_object (JArr xs) = True"
| "typeof_object (JObj kvs) = True"
| "typeof_object (JBool b) = False"
| "typeof_object (JNum n) = False"
| "typeof_object (JStr s) = False"

text \<open>
  The entries the loops run over: \<^verbatim>\<open>Object.entries(input)\<close> under the guard
  \<^verbatim>\<open>input && typeof input === "object"\<close>, and none when the guard fails. The input may be
  \<^verbatim>\<open>undefined\<close>.
\<close>

definition input_entries :: "json option \<Rightarrow> (string \<times> json) list" where
  "input_entries input =
     (case input of
        None \<Rightarrow> []
      | Some v \<Rightarrow> if truthy v \<and> typeof_object v then own_entries v else [])"

text \<open>Lines 262 to 268: the loop of \<^verbatim>\<open>mutationFn\<close> over \<open>(finalRoute, bodyData)\<close>.\<close>

fun substitute_body :: "(string \<times> json) list \<Rightarrow> string \<times> obj \<Rightarrow> string \<times> obj" where
  "substitute_body [] (finalRoute, bodyData) = (finalRoute, bodyData)"
| "substitute_body ((key, v) # es) (finalRoute, bodyData) =
     (if includes_str finalRoute (placeholder key)
      then substitute_body es (replace finalRoute (placeholder key) (ToString v), bodyData)
      else substitute_body es (finalRoute, set_property key v bodyData))"

text \<open>Lines 258 to 277: the URL and the options that \<^verbatim>\<open>mutationFn\<close> hands to the fetcher.\<close>

definition mutation_request :: "string \<Rightarrow> string \<Rightarrow> json option \<Rightarrow> string \<times> request_init" where
  "mutation_request route method input =
     (case substitute_body (input_entries input) (route, []) of
        (finalRoute, bodyData) \<Rightarrow>
          (finalRoute,
           if bodyData \<noteq> [] \<and> method \<noteq> ''DELETE''
           then \<lparr>init_method = Some method, init_headers = None,
                 init_body = Some (JObj bodyData)\<rparr>
           else \<lparr>init_method = Some method, init_headers = None, init_body = None\<rparr>))"

text \<open>
  \<^verbatim>\<open>mutationFn(input)\<close>: the outcome of the fetcher, and the request that reached
  \<^verbatim>\<open>fetch\<close>.
\<close>

definition mutationFn ::
  "fetch \<Rightarrow> string \<Rightarrow> string \<Rightarrow> json option \<Rightarrow> (thrown + json) \<times> (string \<times> request_init)" where
  "mutationFn fetch route method input =
     (case mutation_request route method input of
        (url, options) \<Rightarrow> (fetcher fetch url (Some options), (url, fetch_init (Some options))))"

subsection \<open>The cache\<close>

text \<open>
  Modelled from the spec: the external cache behind \<^verbatim>\<open>mutate\<close> (the data-fetching library
  is not code of this repository). The cache maps keys to entries; a key is any value, the
  string keys being the ones the client writes. An entry holds the last-known data and
  whether a refetch of it has been forced. Three calls are made by the client:
  \<^verbatim>\<open>mutate(key, data, false)\<close> sets the data of a key without a refetch;
  \<^verbatim>\<open>mutate(filter, undefined, { revalidate: true })\<close> invalidates every entry whose key
  the filter accepts (the call passes \<^verbatim>\<open>undefined\<close> as the data and forces the
  refetch); \<^verbatim>\<open>mutate(key)\<close> forces a refetch of the entry of a key.
\<close>

record cache_entry =
  entry_data :: "json option"
  revalidating :: bool

type_synonym cache = "json \<Rightarrow> cache_entry option"

definition mutate_data :: "string \<Rightarrow> json \<Rightarrow> cache \<Rightarrow> cache" where
  "mutate_data key d c =
     c(JStr key \<mapsto>
         (case c (JStr key) of
            None \<Rightarrow> \<lparr>entry_data = Some d, revalidating = False\<rparr>
          | Some en \<Rightarrow> en\<lparr>entry_data := Some d\<rparr>))"

definition mutate_matching :: "(json \<Rightarrow> bool) \<Rightarrow> cache \<Rightarrow> cache" where
  "mutate_matching keyFilter c =
     (\<lambda>k. if keyFilter k
          then map_option (\<lambda>en. \<lparr>entry_data = None, revalidating = True\<rparr>) (c k)
          else c k)"

definition mutate_key :: "string \<Rightarrow> cache \<Rightarrow> cache" where
  "mutate_key key c =
     (case c (JStr key) of
        None \<Rightarrow> c
      | Some en \<Rightarrow> c(JStr key \<mapsto> en\<lparr>revalidating := True\<rparr>))"

text \<open>
  Modelled from the spec: a forced refetch, once the value fetched for the key has arrived: the entry holds that
  value in place of the one it held, and is no longer marked.
\<close>

definition refetch_arrives :: "(json \<Rightarrow> json) \<Rightarrow> cache \<Rightarrow> cache" where
  "refetch_arrives fetched c =
     (\<lambda>k. map_option
            (\<lambda>en. if revalidating en
                  then \<lparr>entry_data = Some (fetched k), revalidating = False\<rparr>
                  else en)
            (c k))"

subsection \<open>The trigger\<close>

record trigger_options =
  optimisticData :: "json option"
  rollbackOnError :: "bool option"
  revalidate :: "bool option"

text \<open>
  The calls of \<^verbatim>\<open>mutate\<close> the trigger makes: \<^verbatim>\<open>mutate(key, data, false)\<close>,
  \<^verbatim>\<open>mutate(filter, undefined, { revalidate: true })\<close> with the filter
  \<^verbatim>\<open>(key) => typeof key === "string" && key.startsWith(baseRoute)\<close>, given by its
  \<open>baseRoute\<close>, and \<^verbatim>\<open>mutate(key)\<close>.
\<close>

datatype mutate_call = MutateData string json | MutateMatching string | MutateKey string

definition key_filter :: "string \<Rightarrow> json \<Rightarrow> bool" where
  "key_filter baseRoute key = (case key of JStr s \<Rightarrow> startsWith s baseRoute | _ \<Rightarrow> False)"

fun apply_mutate :: "mutate_call \<Rightarrow> cache \<Rightarrow> cache" where
  "apply_mutate (MutateData key d) c = mutate_data key d c"
| "apply_mutate (MutateMatching baseRoute) c = mutate_matching (key_filter baseRoute) c"
| "apply_mutate (MutateKey key) c = mutate_key key c"

text \<open>\<^verbatim>\<open>options?.optimisticData\<close> is truthy.\<close>

definition has_optimisticData :: "trigger_options option \<Rightarrow> bool" where
  "has_optimisticData options =
     (case options of None \<Rightarrow> False | Some opts \<Rightarrow> truthy_opt (optimisticData opts))"

text \<open>Lines 296 to 298: the optimistic write under the key \<^verbatim>\<open>String(route)\<close>.\<close>

definition optimistic_calls :: "string \<Rightarrow> trigger_options option \<Rightarrow> mutate_call list" where
  "optimistic_calls route options =
     (case options of
        None \<Rightarrow> []
      | Some opts \<Rightarrow>
          (case optimisticData opts of
             None \<Rightarrow> []
           | Some d \<Rightarrow> if truthy d then [MutateData route d] else []))"

definition optimistic_write :: "string \<Rightarrow> trigger_options option \<Rightarrow> cache \<Rightarrow> cache" where
  "optimistic_write route options c = fold apply_mutate (optimistic_calls route options) c"

text \<open>Lines 304 to 311: the loop over \<open>baseRoute\<close>.\<close>

fun substitute_route :: "(string \<times> json) list \<Rightarrow> string \<Rightarrow> string" where
  "substitute_route [] baseRoute = baseRoute"
| "substitute_route ((key, v) # es) baseRoute =
     (if includes_str baseRoute (placeholder key)
      then substitute_route es (replace baseRoute (placeholder key) (ToString v))
      else substitute_route es baseRoute)"

text \<open>Lines 302 to 318: the invalidation after a successful call.\<close>

definition revalidate_calls ::
  "string \<Rightarrow> json option \<Rightarrow> trigger_options option \<Rightarrow> mutate_call list" where
  "revalidate_calls route input options =
     (if (case options of None \<Rightarrow> True | Some opts \<Rightarrow> revalidate opts \<noteq> Some False)
      then [MutateMatching (substitute_route (input_entries input) route)]
      else [])"

definition revalidate_matching ::
  "string \<Rightarrow> json option \<Rightarrow> trigger_options option \<Rightarrow> cache \<Rightarrow> cache" where
  "revalidate_matching route input options c =
     fold apply_mutate (revalidate_calls route input options) c"

text \<open>Lines 322 to 324: the rollback in the catch block.\<close>

definition rollback_calls :: "string \<Rightarrow> trigger_options option \<Rightarrow> mutate_call list" where
  "rollback_calls route options =
     (if (case options of None \<Rightarrow> True | Some opts \<Rightarrow> rollbackOnError opts \<noteq> Some False)
           \<and> has_optimisticData options
      then [MutateKey route]
      else [])"

definition rollback :: "string \<Rightarrow> trigger_options option \<Rightarrow> cache \<Rightarrow> cache" where
  "rollback route options c = fold apply_mutate (rollback_calls route options) c"

text \<open>
  \<^verbatim>\<open>trigger(input, options)\<close> on a cache: the value returned or the error rethrown, the
  cache afterwards, the requests that reached \<^verbatim>\<open>fetch\<close>, and the calls of
  \<^verbatim>\<open>mutate\<close> in their order.
\<close>

record trigger_outcome =
  result :: "thrown + json"
  cache_after :: cache
  requests :: "(string \<times> request_init) list"
  mutate_calls :: "mutate_call list"

definition trigger ::
  "fetch \<Rightarrow> string \<Rightarrow> string \<Rightarrow> json option \<Rightarrow> trigger_options option \<Rightarrow> cache
     \<Rightarrow> trigger_outcome" where
  "trigger fetch route method input options c =
     (let c1 = optimistic_write route options c
      in case mutationFn fetch route method input of
           (Inr r, rq) \<Rightarrow>
             \<lparr>result = Inr r, cache_after = revalidate_matching route input options c1,
              requests = [rq],
              mutate_calls = optimistic_calls route options
                               @ revalidate_calls route input options\<rparr>
         | (Inl error, rq) \<Rightarrow>
             \<lparr>result = Inl error, cache_after = rollback route options c1, requests = [rq],
              mutate_calls = optimistic_calls route options @ rollback_calls route options\<rparr>)"

section \<open>Route templates\<close>

text \<open>
  A route template as the spec describes it: literal text and bracketed placeholders. It
  is the yardstick for \<^verbatim>\<open>buildRoute\<close>, not part of the code. A literal holds no opening
  bracket, a placeholder name no bracket at all.
\<close>

datatype segment = Lit string | Param string

fun render_segment :: "segment \<Rightarrow> string" where
  "render_segment (Lit s) = s"
| "render_segment (Param n) = placeholder n"

definition render :: "segment list \<Rightarrow> string" where
  "render ts = concat (map render_segment ts)"

fun wf_segment :: "segment \<Rightarrow> bool" where
  "wf_segment (Lit s) = (CHR ''['' \<notin> set s)"
| "wf_segment (Param n) = (CHR ''['' \<notin> set n \<and> CHR '']'' \<notin> set n)"

fun param_names :: "segment list \<Rightarrow> string list" where
  "param_names [] = []"
| "param_names (Lit s # ts) = param_names ts"
| "param_names (Param n # ts) = n # param_names ts"

text \<open>The substitution the spec describes: each placeholder that is a key becomes its value.\<close>

fun substitute_segment :: "(string \<Rightarrow> string option) \<Rightarrow> segment \<Rightarrow> segment" where
  "substitute_segment m (Lit s) = Lit s"
| "substitute_segment m (Param n) = (case m n of None \<Rightarrow> Param n | Some v \<Rightarrow> Lit v)"

text \<open>
  A plain parameter mapping: distinct keys without a closing bracket, values without an
  opening bracket and without a dollar sign.
\<close>

definition plain_params :: "(string \<times> string) list \<Rightarrow> bool" where
  "plain_params ps =
     (distinct (map fst ps)
      \<and> list_all (\<lambda>(k, v). CHR '']'' \<notin> set k \<and> CHR ''['' \<notin> set v \<and> CHR ''$'' \<notin> set v) ps)"

section \<open>What the statements are measured against\<close>

text \<open>
  The path parameters of the route, as entries: those of \<^verbatim>\<open>context.params\<close>, and none
  when the context or its \<^verbatim>\<open>params\<close> is absent. Like the route templates above, this is
  a yardstick of the statements; the adapter does not use it.
\<close>

definition path_parameters :: "route_context option \<Rightarrow> (string \<times> json) list" where
  "path_parameters ctx =
     (case ctx of
        None \<Rightarrow> []
      | Some c \<Rightarrow> (case params c of None \<Rightarrow> [] | Some p \<Rightarrow> own_entries p))"


section \<open>Objects with distinct keys, and what a trace calls\<close>

definition distinct_keys :: "(string \<times> json) list \<Rightarrow> bool" where
  "distinct_keys es = distinct (map fst es)"

fun handler_calls :: "event list \<Rightarrow> json list" where
  "handler_calls [] = []"
| "handler_calls (HandlerCall x # tr) = x # handler_calls tr"
| "handler_calls (SafeParse x # tr) = handler_calls tr"
| "handler_calls (ConsoleError e # tr) = handler_calls tr"

section \<open>Example handlers, validators and networks\<close>

text \<open>The concrete collaborators the theorems below are run on.\<close>

definition echo :: handler_fn where
  "echo input hc = Inr (Serialisable input)"

definition failing :: "thrown \<Rightarrow> handler_fn" where
  "failing e input hc = Inl e"

text \<open>A handler that returns nothing: \<^verbatim>\<open>Response.json(undefined)\<close> throws \<open>e\<close>.\<close>

definition returns_nothing :: "thrown \<Rightarrow> handler_fn" where
  "returns_nothing e input hc = Inr (Unserialisable e)"

definition issue :: "string \<Rightarrow> string \<Rightarrow> json" where
  "issue field msg = JObj [(''path'', JArr [JStr field]), (''message'', JStr msg)]"

text \<open>
  A validator of one string field: the validated value holds that field alone, with the
  default when the field is absent and a default is given.
\<close>

definition string_field :: "string \<Rightarrow> string option \<Rightarrow> schema" where
  "string_field field dflt v =
     (case map_of (own_entries v) field of
        Some (JStr s) \<Rightarrow> Inr (Success (JObj [(field, JStr s)]))
      | Some _ \<Rightarrow> Inr (Failure [issue field ''Expected string''])
      | None \<Rightarrow>
          (case dflt of
             Some d \<Rightarrow> Inr (Success (JObj [(field, JStr d)]))
           | None \<Rightarrow> Inr (Failure [issue field ''Required''])))"


definition fetch_rejects :: "thrown \<Rightarrow> fetch" where
  "fetch_rejects e url init = Inl e"

section \<open>Unregistered methods\<close>

text \<open>
  C5, as stated, fails: for a method that is no key of the handlers object there is no
  route function at all, so the adapter gives no response to such a request, with or
  without a body.
\<close>

theorem method_without_route_function:
  "createApiHandler [(''GET'', Some (Regular echo))] ''PATCH'' = None"
  by (simp add: createApiHandler_def)

lemma lookup_handler_None:
  assumes "distinct (map fst hs)"
  shows "lookup_handler hs method = None \<longleftrightarrow>
           (method, None) \<in> set hs \<or> method \<notin> fst ` set hs"
proof (cases "map_of hs method")
  case None
  moreover from None have "method \<notin> fst ` set hs" by (simp add: map_of_eq_None_iff)
  ultimately show ?thesis by (simp add: lookup_handler_def)
next
  case (Some v)
  then have mem: "(method, v) \<in> set hs" by (rule map_of_SomeD)
  have uniq: "w = v" if "(method, w) \<in> set hs" for w
    using that assms Some by simp
  from mem have key: "method \<in> fst ` set hs" by force
  show ?thesis
  proof (cases v)
    case None
    with Some mem show ?thesis by (simp add: lookup_handler_def)
  next
    case (Some h)
    with uniq [of None] have "(method, None) \<notin> set hs" by auto
    with key Some \<open>map_of hs method = Some v\<close> show ?thesis
      by (simp add: lookup_handler_def)
  qed
qed

lemma status_with_handler:
  assumes "lookup_handler hs method = Some h"
  shows "status (response (createMethod hs method req ctx)) \<noteq> 405"
  using assms
  by (simp add: createMethod_def catch_error_def Let_def
      split: handler.splits sum.splits safe_parse_result.splits)

lemma createMethod_unset:
  assumes "lookup_handler hs method = None"
  shows "createMethod hs method req ctx =
           \<lparr>response = \<lparr>status = 405,
                         body = JObj [(''error'', JStr (''Method '' @ method @ '' not allowed''))]\<rparr>,
            trace = []\<rparr>"
  using assms by (simp add: createMethod_def)

text \<open>
  C5, amended. \<^verbatim>\<open>createApiHandler\<close> builds a route function for each key of the
  handlers object and for no other method (\<^verbatim>\<open>__handlers\<close> apart, which holds the handlers
  object). The route function of a key \<open>M\<close> whose handler is unset answers with status 405
  and the body \<^verbatim>\<open>{error: "Method M not allowed"}\<close>, whatever the query, the body and the
  path parameters of the request are, and a route function answers 405 in no other case.
\<close>

theorem unset_handler_not_allowed:
  assumes "distinct (map fst hs)"
  shows "(createApiHandler hs method = None \<longleftrightarrow>
            method \<notin> fst ` set hs \<or> method = ''__handlers'')
       \<and> (\<forall>f. createApiHandler hs method = Some f \<longrightarrow>
             (status (response (f req ctx)) = 405 \<longleftrightarrow> (method, None) \<in> set hs)
             \<and> ((method, None) \<in> set hs \<longrightarrow>
                  f req ctx =
                    \<lparr>response = \<lparr>status = 405,
                       body = JObj [(''error'', JStr (''Method '' @ method @ '' not allowed''))]\<rparr>,
                     trace = []\<rparr>))"
proof -
  have keys: "createApiHandler hs method = None \<longleftrightarrow>
      method \<notin> fst ` set hs \<or> method = ''__handlers''"
    by (auto simp: createApiHandler_def)
  have "(status (response (f req ctx)) = 405 \<longleftrightarrow> (method, None) \<in> set hs)
      \<and> ((method, None) \<in> set hs \<longrightarrow>
           f req ctx =
             \<lparr>response = \<lparr>status = 405,
                body = JObj [(''error'', JStr (''Method '' @ method @ '' not allowed''))]\<rparr>,
              trace = []\<rparr>)"
    if f: "createApiHandler hs method = Some f" for f
  proof -
    from f have k: "method \<in> fst ` set hs" and ff: "f = createMethod hs method"
      by (auto simp: createApiHandler_def split: if_splits)
    show ?thesis
    proof (cases "lookup_handler hs method")
      case None
      with k have "(method, None) \<in> set hs"
        using lookup_handler_None [OF assms, of "method"] by simp
      then show ?thesis using createMethod_unset [OF None] by (simp add: ff)
    next
      case (Some h)
      then have "(method, None) \<notin> set hs"
        using lookup_handler_None [OF assms, of "method"] by auto
      then show ?thesis using status_with_handler [OF Some] by (simp add: ff)
    qed
  qed
  with keys show ?thesis by blast
qed

theorem unset_handler_not_allowed_witness:
  "createApiHandler [(''GET'', Some (Regular echo)), (''PATCH'', None)] ''PUT'' = None
   \<and> (\<exists>f. createApiHandler [(''GET'', Some (Regular echo)), (''PATCH'', None)] ''PATCH'' = Some f
        \<and> f \<lparr>searchParams = [(''id'', ''a'')], json_body = Some (JObj [(''x'', JNum 1)])\<rparr>
             (Some \<lparr>params = Some (JObj [(''id'', JStr ''b'')])\<rparr>) =
           \<lparr>response = \<lparr>status = 405,
                         body = JObj [(''error'', JStr ''Method PATCH not allowed'')]\<rparr>,
            trace = []\<rparr>)
   \<and> (\<exists>f. createApiHandler [(''GET'', Some (Regular echo)), (''PATCH'', None)] ''GET'' = Some f
        \<and> status (response (f \<lparr>searchParams = [], json_body = None\<rparr> None)) \<noteq> 405)"
proof -
  let ?hs = "[(''GET'', Some (Regular echo)), (''PATCH'', None)]"
  let ?req = "\<lparr>searchParams = [(''id'', ''a'')], json_body = Some (JObj [(''x'', JNum 1)])\<rparr>"
  let ?ctx = "Some \<lparr>params = Some (JObj [(''id'', JStr ''b'')])\<rparr>"
  have d: "distinct (map fst ?hs)" by simp
  have p: "createApiHandler ?hs ''PATCH'' = Some (createMethod ?hs ''PATCH'')"
    and g: "createApiHandler ?hs ''GET'' = Some (createMethod ?hs ''GET'')"
    by (simp_all add: createApiHandler_def)
  show ?thesis
    using unset_handler_not_allowed [OF d, of "''PUT''"]
      unset_handler_not_allowed [OF d, of "''PATCH''" ?req ?ctx]
      unset_handler_not_allowed [OF d, of "''GET''" "\<lparr>searchParams = [], json_body = None\<rparr>" None]
      p g
    by simp
qed

section \<open>The merged input\<close>

lemma map_of_set_property:
  "map_of (set_property k v ob) = (map_of ob)(k \<mapsto> v)"
  by (simp add: set_property_def update_conv')

lemma map_of_assign_entries:
  "map_of (assign_entries target es) = map_of target ++ map_of (rev es)"
proof (induction es arbitrary: target)
  case Nil
  show ?case by simp
next
  case (Cons e es)
  obtain k v where e: "e = (k, v)" by (cases e)
  show ?case
    by (simp add: e Cons.IH map_of_set_property map_add_def fun_eq_iff split: option.splits)
qed

lemma map_of_rev_distinct:
  "distinct (map fst es) \<Longrightarrow> map_of (rev es) = map_of es"
  by (simp add: map_of_inject_set distinct_map)

lemma assign_entries_append_distinct:
  "distinct (map fst (target @ es)) \<Longrightarrow> assign_entries target es = target @ es"
proof (induction es arbitrary: target)
  case Nil
  show ?case by simp
next
  case (Cons e es)
  obtain k v where e: "e = (k, v)" by (cases e)
  have "k \<notin> fst ` set target" using Cons.prems by (auto simp: e)
  then have "set_property k v target = target @ [(k, v)]"
    unfolding set_property_def by (induction target) auto
  with Cons show ?case by (simp add: e)
qed

lemma spread_entries_Some: "spread_entries (Some x) = own_entries x"
  by (simp add: spread_entries_def)

lemma map_of_spread2:
  assumes "distinct_keys (spread_entries a)" and "distinct_keys (spread_entries b)"
  shows "map_of (spread2 a b) k =
           (case map_of (spread_entries b) k of
              Some v \<Rightarrow> Some v
            | None \<Rightarrow> map_of (spread_entries a) k)"
  using assms
  by (simp add: spread2_def distinct_keys_def map_of_assign_entries map_of_rev_distinct
      map_add_def)

lemma distinct_keys_fromEntries: "distinct_keys (fromEntries es)"
proof -
  have "distinct (map fst target) \<Longrightarrow> distinct (map fst (assign_entries target xs))"
    for target xs
  proof (induction xs arbitrary: target)
    case Nil
    then show ?case by simp
  next
    case (Cons e xs)
    obtain k v where e: "e = (k, v)" by (cases e)
    show ?case using Cons by (simp add: e set_property_def distinct_update)
  qed
  from this [of "[]" es] show ?thesis
    by (simp add: distinct_keys_def fromEntries_def)
qed

lemma map_of_queryParams:
  "map_of (queryParams req) k = map_option JStr (map_of (rev (searchParams req)) k)"
proof -
  have "map_of (queryParams req) =
      map_of (map (\<lambda>(k, v). (k, JStr v)) (rev (searchParams req)))"
    by (simp add: queryParams_def fromEntries_def map_of_assign_entries rev_map)
  then show ?thesis by (simp add: map_of_map)
qed

lemma spread_context_params: "spread_entries (context_params ctx) = path_parameters ctx"
  by (simp add: spread_entries_def context_params_def path_parameters_def split: option.splits)

lemma map_of_rawInput:
  assumes "distinct_keys (path_parameters ctx)"
    and "distinct_keys (case json_body req of None \<Rightarrow> [] | Some b \<Rightarrow> own_entries b)"
  shows "map_of (rawInput method req ctx) k =
           (case map_of (path_parameters ctx) k of
              Some v \<Rightarrow> Some v
            | None \<Rightarrow>
                (if method = ''GET'' \<or> method = ''DELETE''
                 then map_option JStr (map_of (rev (searchParams req)) k)
                 else (case json_body req of
                         None \<Rightarrow> None
                       | Some b \<Rightarrow> map_of (own_entries b) k)))"
proof -
  have p: "distinct_keys (spread_entries (context_params ctx))"
    using assms(1) by (simp add: spread_context_params)
  have q: "distinct_keys (spread_entries (Some (JObj (queryParams req))))"
    by (simp add: spread_entries_Some queryParams_def distinct_keys_fromEntries)
  have b: "distinct_keys (spread_entries (Some (parsed_body req)))"
    using assms(2)
    by (simp add: spread_entries_Some parsed_body_def distinct_keys_def split: option.splits)
  have pb: "map_of (own_entries (parsed_body req)) k =
      (case json_body req of None \<Rightarrow> None | Some b \<Rightarrow> map_of (own_entries b) k)"
    by (simp add: parsed_body_def split: option.splits)
  show ?thesis
    using map_of_spread2 [OF q p, of k] map_of_spread2 [OF b p, of k]
    by (simp add: rawInput_def spread_entries_Some spread_context_params map_of_queryParams pb
        split: option.splits)
qed

lemma calls_of_handler:
  assumes "lookup_handler hs method = Some h"
  shows "case h of
           Regular f \<Rightarrow>
             handler_calls (trace (createMethod hs method req ctx)) =
               [JObj (rawInput method req ctx)]
         | Schema sch f \<Rightarrow>
             take 1 (trace (createMethod hs method req ctx)) =
               [SafeParse (JObj (rawInput method req ctx))]"
  using assms
  by (simp add: createMethod_def catch_error_def Let_def
      split: handler.splits sum.splits safe_parse_result.splits)

text \<open>
  C1, as stated, fails for a handler with a validator: the handler function is called
  with the validator's output, which need not hold the path parameter. Below the path
  parameter \<open>id\<close> is \<open>b\<close> and the function is called with the validated object, which has
  the field \<open>limit\<close> alone.
\<close>

theorem validated_input_counterexample:
  "handler_calls (trace (createMethod
       [(''GET'', Some (Schema (string_field ''limit'' (Some ''10'')) echo))] ''GET''
       \<lparr>searchParams = [(''id'', ''a'')], json_body = None\<rparr>
       (Some \<lparr>params = Some (JObj [(''id'', JStr ''b'')])\<rparr>))) =
     [JObj [(''limit'', JStr ''10'')]]"
  by (simp add: createMethod_def lookup_handler_def rawInput_def spread2_def spread_entries_def
      context_params_def queryParams_def fromEntries_def set_property_def string_field_def
      echo_def Response_json_def)

text \<open>
  C1, amended. For every request handled by the adapter, the merged input is the merge of
  the query-string mapping, for GET and DELETE, or of the parsed JSON body, for any other
  method, with the path parameters of the route, and a key present in both reads as the
  path parameter's value. A handler without a validator is called once, with exactly this
  merged input; for a handler with a validator it is the input the validator is run on.
\<close>

theorem path_parameters_win:
  assumes "lookup_handler hs method = Some h"
    and "distinct_keys (path_parameters ctx)"
    and "distinct_keys (case json_body req of None \<Rightarrow> [] | Some b \<Rightarrow> own_entries b)"
  shows "\<exists>inp.
      (\<forall>k. map_of inp k =
         (case map_of (path_parameters ctx) k of
            Some v \<Rightarrow> Some v
          | None \<Rightarrow>
              (if method = ''GET'' \<or> method = ''DELETE''
               then map_option JStr (map_of (rev (searchParams req)) k)
               else (case json_body req of
                       None \<Rightarrow> None
                     | Some b \<Rightarrow> map_of (own_entries b) k))))
      \<and> (case h of
            Regular f \<Rightarrow>
              handler_calls (trace (createMethod hs method req ctx)) = [JObj inp]
          | Schema sch f \<Rightarrow>
              take 1 (trace (createMethod hs method req ctx)) = [SafeParse (JObj inp)])"
  using map_of_rawInput [OF assms(2,3)] calls_of_handler [OF assms(1)]
  by (intro exI [of _ "rawInput method req ctx"]) simp

theorem path_parameters_win_witness:
  "(\<exists>inp. handler_calls (trace (createMethod [(''GET'', Some (Regular echo))] ''GET''
              \<lparr>searchParams = [(''id'', ''a''), (''q'', ''x'')], json_body = None\<rparr>
              (Some \<lparr>params = Some (JObj [(''id'', JStr ''b'')])\<rparr>))) = [JObj inp]
          \<and> map_of inp ''id'' = Some (JStr ''b'') \<and> map_of inp ''q'' = Some (JStr ''x''))
   \<and> (\<exists>inp. handler_calls (trace (createMethod [(''PUT'', Some (Regular echo))] ''PUT''
              \<lparr>searchParams = [],
                 json_body = Some (JObj [(''id'', JStr ''a''), (''name'', JStr ''n'')])\<rparr>
              (Some \<lparr>params = Some (JObj [(''id'', JStr ''b'')])\<rparr>))) = [JObj inp]
          \<and> map_of inp ''id'' = Some (JStr ''b'') \<and> map_of inp ''name'' = Some (JStr ''n''))
   \<and> (\<exists>inp. take 1 (trace (createMethod
              [(''PUT'', Some (Schema (string_field ''name'' None) echo))] ''PUT''
              \<lparr>searchParams = [],
                 json_body = Some (JObj [(''id'', JStr ''a''), (''name'', JStr ''n'')])\<rparr>
              (Some \<lparr>params = Some (JObj [(''id'', JStr ''b'')])\<rparr>))) = [SafeParse (JObj inp)]
          \<and> map_of inp ''id'' = Some (JStr ''b'') \<and> map_of inp ''name'' = Some (JStr ''n''))"
proof -
  let ?ctx = "Some \<lparr>params = Some (JObj [(''id'', JStr ''b'')])\<rparr>"
  let ?get = "\<lparr>searchParams = [(''id'', ''a''), (''q'', ''x'')], json_body = None\<rparr>"
  let ?put = "\<lparr>searchParams = [],
                 json_body = Some (JObj [(''id'', JStr ''a''), (''name'', JStr ''n'')])\<rparr>"
  have l1: "lookup_handler [(''GET'', Some (Regular echo))] ''GET'' = Some (Regular echo)"
    and l2: "lookup_handler [(''PUT'', Some (Regular echo))] ''PUT'' = Some (Regular echo)"
    and l3: "lookup_handler [(''PUT'', Some (Schema (string_field ''name'' None) echo))] ''PUT''
               = Some (Schema (string_field ''name'' None) echo)"
    by (simp_all add: lookup_handler_def)
  have p: "distinct_keys (path_parameters ?ctx)"
    by (simp add: distinct_keys_def path_parameters_def)
  have b1: "distinct_keys (case json_body ?get of None \<Rightarrow> [] | Some b \<Rightarrow> own_entries b)"
    and b2: "distinct_keys (case json_body ?put of None \<Rightarrow> [] | Some b \<Rightarrow> own_entries b)"
    by (simp_all add: distinct_keys_def)
  have pp: "path_parameters ?ctx = [(''id'', JStr ''b'')]"
    by (simp add: path_parameters_def)
  from path_parameters_win [OF l1 p b1] obtain i1 where
    "\<forall>k. map_of i1 k =
       (case map_of (path_parameters ?ctx) k of
          Some v \<Rightarrow> Some v
        | None \<Rightarrow>
            (if ''GET'' = ''GET'' \<or> ''GET'' = ''DELETE''
             then map_option JStr (map_of (rev (searchParams ?get)) k)
             else (case json_body ?get of None \<Rightarrow> None | Some b \<Rightarrow> map_of (own_entries b) k)))"
    and c1: "handler_calls (trace (createMethod [(''GET'', Some (Regular echo))] ''GET'' ?get ?ctx))
               = [JObj i1]"
    by auto
  then have v1: "map_of i1 ''id'' = Some (JStr ''b'')" "map_of i1 ''q'' = Some (JStr ''x'')"
    by (simp_all add: pp)
  from path_parameters_win [OF l2 p b2] obtain i2 where
    "\<forall>k. map_of i2 k =
       (case map_of (path_parameters ?ctx) k of
          Some v \<Rightarrow> Some v
        | None \<Rightarrow>
            (if ''PUT'' = ''GET'' \<or> ''PUT'' = ''DELETE''
             then map_option JStr (map_of (rev (searchParams ?put)) k)
             else (case json_body ?put of None \<Rightarrow> None | Some b \<Rightarrow> map_of (own_entries b) k)))"
    and c2: "handler_calls (trace (createMethod [(''PUT'', Some (Regular echo))] ''PUT'' ?put ?ctx))
               = [JObj i2]"
    by auto
  then have v2: "map_of i2 ''id'' = Some (JStr ''b'')" "map_of i2 ''name'' = Some (JStr ''n'')"
    by (simp_all add: pp)
  from path_parameters_win [OF l3 p b2] obtain i3 where
    "\<forall>k. map_of i3 k =
       (case map_of (path_parameters ?ctx) k of
          Some v \<Rightarrow> Some v
        | None \<Rightarrow>
            (if ''PUT'' = ''GET'' \<or> ''PUT'' = ''DELETE''
             then map_option JStr (map_of (rev (searchParams ?put)) k)
             else (case json_body ?put of None \<Rightarrow> None | Some b \<Rightarrow> map_of (own_entries b) k)))"
    and c3: "take 1 (trace (createMethod
               [(''PUT'', Some (Schema (string_field ''name'' None) echo))] ''PUT'' ?put ?ctx))
               = [SafeParse (JObj i3)]"
    by auto
  then have v3: "map_of i3 ''id'' = Some (JStr ''b'')" "map_of i3 ''name'' = Some (JStr ''n'')"
    by (simp_all add: pp)
  from c1 v1 c2 v2 c3 v3 show ?thesis by blast
qed

section \<open>A body that does not parse\<close>

text \<open>
  C2, as stated, fails: the adapter goes on with the path parameters as the whole input,
  and what follows is the usual path. A validator that requires a field rejects that input
  with status 400 and the handler function is not called.
\<close>

theorem malformed_body_counterexample:
  "status (response (createMethod [(''POST'', Some (Schema (string_field ''name'' None) echo))]
       ''POST'' \<lparr>searchParams = [], json_body = None\<rparr> None)) = 400
   \<and> handler_calls (trace (createMethod
       [(''POST'', Some (Schema (string_field ''name'' None) echo))]
       ''POST'' \<lparr>searchParams = [], json_body = None\<rparr> None)) = []"
  by (simp add: createMethod_def lookup_handler_def rawInput_def parsed_body_def spread2_def
      spread_entries_def context_params_def echo_def issue_def string_field_def)

text \<open>
  A handler that throws on the empty input yields status 500, and so does a handler that
  returns nothing, since \<^verbatim>\<open>Response.json\<close> throws inside the try block.
\<close>

lemma malformed_body_handler_throws:
  "status (response (createMethod [(''POST'', Some (Regular (failing (Error ''boom''))))]
       ''POST'' \<lparr>searchParams = [], json_body = None\<rparr> None)) = 500"
  by (simp add: createMethod_def lookup_handler_def catch_error_def failing_def)

lemma malformed_body_handler_returns_nothing:
  "response (createMethod [(''POST'', Some (Regular (returns_nothing (Error m))))]
       ''POST'' \<lparr>searchParams = [], json_body = None\<rparr> None) =
     \<lparr>status = 500, body = JObj [(''error'', JStr m)]\<rparr>"
  by (simp add: createMethod_def lookup_handler_def catch_error_def returns_nothing_def
      Response_json_def error_message_def)

lemma rawInput_malformed:
  assumes "method \<noteq> ''GET''" and "method \<noteq> ''DELETE''" and "json_body req = None"
    and "distinct_keys (path_parameters ctx)"
  shows "rawInput method req ctx = path_parameters ctx"
  using assms assign_entries_append_distinct [of "[]" "path_parameters ctx"]
  by (simp add: rawInput_def parsed_body_def spread2_def spread_entries_Some
      spread_context_params distinct_keys_def)

lemma hc_params_context:
  "context_params ctx = (case ctx of None \<Rightarrow> None | Some c \<Rightarrow> params c)"
  by (simp add: context_params_def)

text \<open>
  C2, amended. For a method other than GET and DELETE and a body that fails to parse, the
  parse failure is not reported: the merged input is exactly the path parameters of the
  route (the empty object when there are none), and it is what a plain handler, or the
  validator of a handler that has one, receives. A plain handler that returns a
  serialisable value on that input is called with it once and the response is 200 with
  that value; a handler with a validator that accepts that input is called with the
  validated value, with the same response when it returns a serialisable value.
\<close>

theorem malformed_body_is_empty_input:
  assumes "method \<noteq> ''GET''" and "method \<noteq> ''DELETE''" and "json_body req = None"
    and "distinct_keys (path_parameters ctx)"
  shows "(\<forall>h. lookup_handler hs method = Some h \<longrightarrow>
            take 1 (trace (createMethod hs method req ctx)) =
              [case h of
                 Regular f \<Rightarrow> HandlerCall (JObj (path_parameters ctx))
               | Schema sch f \<Rightarrow> SafeParse (JObj (path_parameters ctx))])
     \<and> (\<forall>f r. lookup_handler hs method = Some (Regular f)
              \<and> f (JObj (path_parameters ctx))
                   \<lparr>hc_req = req,
                      hc_params = (case ctx of None \<Rightarrow> None | Some c \<Rightarrow> params c)\<rparr>
                 = Inr (Serialisable r)
          \<longrightarrow> createMethod hs method req ctx =
                \<lparr>response = \<lparr>status = 200, body = r\<rparr>,
                 trace = [HandlerCall (JObj (path_parameters ctx))]\<rparr>)
     \<and> (\<forall>sch f d r. lookup_handler hs method = Some (Schema sch f)
              \<and> sch (JObj (path_parameters ctx)) = Inr (Success d)
              \<and> f d \<lparr>hc_req = req,
                       hc_params = (case ctx of None \<Rightarrow> None | Some c \<Rightarrow> params c)\<rparr>
                 = Inr (Serialisable r)
          \<longrightarrow> createMethod hs method req ctx =
                \<lparr>response = \<lparr>status = 200, body = r\<rparr>,
                 trace = [SafeParse (JObj (path_parameters ctx)), HandlerCall d]\<rparr>)"
proof -
  have raw: "rawInput method req ctx = path_parameters ctx"
    by (rule rawInput_malformed [OF assms])
  have first: "take 1 (trace (createMethod hs method req ctx)) =
              [case h of
                 Regular f \<Rightarrow> HandlerCall (JObj (path_parameters ctx))
               | Schema sch f \<Rightarrow> SafeParse (JObj (path_parameters ctx))]"
    if "lookup_handler hs method = Some h" for h
    using that
    by (simp add: createMethod_def catch_error_def Let_def raw
        split: handler.splits sum.splits safe_parse_result.splits)
  have regular: "createMethod hs method req ctx =
                \<lparr>response = \<lparr>status = 200, body = r\<rparr>,
                 trace = [HandlerCall (JObj (path_parameters ctx))]\<rparr>"
    if "lookup_handler hs method = Some (Regular f)"
      and "f (JObj (path_parameters ctx))
                   \<lparr>hc_req = req,
                      hc_params = (case ctx of None \<Rightarrow> None | Some c \<Rightarrow> params c)\<rparr>
                 = Inr (Serialisable r)" for f r
    using that by (simp add: createMethod_def raw hc_params_context Response_json_def)
  have validated: "createMethod hs method req ctx =
                \<lparr>response = \<lparr>status = 200, body = r\<rparr>,
                 trace = [SafeParse (JObj (path_parameters ctx)), HandlerCall d]\<rparr>"
    if "lookup_handler hs method = Some (Schema sch f)"
      and "sch (JObj (path_parameters ctx)) = Inr (Success d)"
      and "f d \<lparr>hc_req = req,
                       hc_params = (case ctx of None \<Rightarrow> None | Some c \<Rightarrow> params c)\<rparr>
                 = Inr (Serialisable r)" for sch f d r
    using that by (simp add: createMethod_def raw hc_params_context Response_json_def)
  from first regular validated show ?thesis by blast
qed

theorem malformed_body_is_empty_input_witness:
  "createMethod [(''POST'', Some (Regular echo))] ''POST''
       \<lparr>searchParams = [], json_body = None\<rparr>
       (Some \<lparr>params = Some (JObj [(''id'', JStr ''7'')])\<rparr>) =
     \<lparr>response = \<lparr>status = 200, body = JObj [(''id'', JStr ''7'')]\<rparr>,
      trace = [HandlerCall (JObj [(''id'', JStr ''7'')])]\<rparr>
   \<and> createMethod [(''POST'', Some (Regular echo))] ''POST''
       \<lparr>searchParams = [], json_body = None\<rparr> None =
     \<lparr>response = \<lparr>status = 200, body = JObj []\<rparr>, trace = [HandlerCall (JObj [])]\<rparr>
   \<and> createMethod [(''PUT'', Some (Schema (string_field ''limit'' (Some ''10'')) echo))] ''PUT''
       \<lparr>searchParams = [], json_body = None\<rparr> None =
     \<lparr>response = \<lparr>status = 200, body = JObj [(''limit'', JStr ''10'')]\<rparr>,
      trace = [SafeParse (JObj []), HandlerCall (JObj [(''limit'', JStr ''10'')])]\<rparr>
   \<and> take 1 (trace (createMethod [(''POST'', Some (Regular (returns_nothing (Error ''no''))))]
       ''POST'' \<lparr>searchParams = [], json_body = None\<rparr>
       (Some \<lparr>params = Some (JObj [(''id'', JStr ''7'')])\<rparr>))) =
     [HandlerCall (JObj [(''id'', JStr ''7'')])]"
proof -
  let ?hs = "[(''POST'', Some (Regular echo))]"
  let ?hs2 = "[(''PUT'', Some (Schema (string_field ''limit'' (Some ''10'')) echo))]"
  let ?hs3 = "[(''POST'', Some (Regular (returns_nothing (Error ''no''))))]"
  let ?req = "\<lparr>searchParams = [], json_body = None\<rparr>"
  let ?ctx = "Some \<lparr>params = Some (JObj [(''id'', JStr ''7'')])\<rparr>"
  have m: "''POST'' \<noteq> ''GET''" "''POST'' \<noteq> ''DELETE''" "json_body ?req = None"
    by simp_all
  have m2: "''PUT'' \<noteq> ''GET''" "''PUT'' \<noteq> ''DELETE''" "json_body ?req = None"
    by simp_all
  have d1: "distinct_keys (path_parameters ?ctx)"
    by (simp add: distinct_keys_def path_parameters_def)
  have d2: "distinct_keys (path_parameters None)"
    by (simp add: distinct_keys_def path_parameters_def)
  have l: "lookup_handler ?hs ''POST'' = Some (Regular echo)"
    by (simp add: lookup_handler_def)
  have l2: "lookup_handler ?hs2 ''PUT'' = Some (Schema (string_field ''limit'' (Some ''10'')) echo)"
    by (simp add: lookup_handler_def)
  have l3: "lookup_handler ?hs3 ''POST'' = Some (Regular (returns_nothing (Error ''no'')))"
    by (simp add: lookup_handler_def)
  have s2: "string_field ''limit'' (Some ''10'') (JObj []) =
      Inr (Success (JObj [(''limit'', JStr ''10'')]))"
    by (simp add: string_field_def)
  show ?thesis
    using malformed_body_is_empty_input [where hs = ?hs, OF m d1]
      malformed_body_is_empty_input [where hs = ?hs, OF m d2]
      malformed_body_is_empty_input [where hs = ?hs2, OF m2 d2]
      malformed_body_is_empty_input [where hs = ?hs3, OF m d1] l l2 l3 s2
    by (simp add: path_parameters_def echo_def)
qed

section \<open>A handler that throws\<close>

text \<open>
  C3. When the handler function, called with the input the adapter gives it, throws or
  rejects, the adapter answers with status 500 and the body \<^verbatim>\<open>{error: m}\<close>, where \<open>m\<close> is
  the message of a thrown \<^verbatim>\<open>Error\<close> and \<^verbatim>\<open>"Internal server error"\<close> for any other thrown
  value. The route function returns this response: nothing is thrown past it.
\<close>

theorem handler_error_500:
  assumes "lookup_handler hs method = Some h"
    and "case h of
           Regular f \<Rightarrow>
             f (JObj (rawInput method req ctx))
               \<lparr>hc_req = req, hc_params = context_params ctx\<rparr> = Inl e
         | Schema sch f \<Rightarrow>
             (\<exists>d. sch (JObj (rawInput method req ctx)) = Inr (Success d)
                \<and> f d \<lparr>hc_req = req, hc_params = context_params ctx\<rparr> = Inl e)"
  shows "response (createMethod hs method req ctx) =
           \<lparr>status = 500,
            body = JObj [(''error'',
              JStr (case e of Error m \<Rightarrow> m | NonError v \<Rightarrow> ''Internal server error''))]\<rparr>"
proof (cases h)
  case (Regular f)
  with assms show ?thesis
    by (simp add: createMethod_def catch_error_def error_message_def)
next
  case (Schema sch f)
  with assms(2) obtain d where
    "sch (JObj (rawInput method req ctx)) = Inr (Success d)"
    "f d \<lparr>hc_req = req, hc_params = context_params ctx\<rparr> = Inl e"
    by auto
  with assms(1) Schema show ?thesis
    by (simp add: createMethod_def catch_error_def error_message_def)
qed

theorem handler_error_500_witness:
  "response (createMethod [(''POST'', Some (Regular (failing (Error ''boom''))))] ''POST''
       \<lparr>searchParams = [], json_body = Some (JObj [(''a'', JNum 1)])\<rparr> None) =
     \<lparr>status = 500, body = JObj [(''error'', JStr ''boom'')]\<rparr>
   \<and> response (createMethod
       [(''GET'', Some (Schema (string_field ''limit'' (Some ''10''))
                         (failing (NonError (JStr ''boom'')))))] ''GET''
       \<lparr>searchParams = [], json_body = None\<rparr> None) =
     \<lparr>status = 500, body = JObj [(''error'', JStr ''Internal server error'')]\<rparr>"
proof -
  let ?hs1 = "[(''POST'', Some (Regular (failing (Error ''boom''))))]"
  let ?hs2 = "[(''GET'', Some (Schema (string_field ''limit'' (Some ''10''))
                         (failing (NonError (JStr ''boom'')))))]"
  let ?req1 = "\<lparr>searchParams = [], json_body = Some (JObj [(''a'', JNum 1)])\<rparr>"
  let ?req2 = "\<lparr>searchParams = [], json_body = None\<rparr>"
  have l1: "lookup_handler ?hs1 ''POST'' = Some (Regular (failing (Error ''boom'')))"
    by (simp add: lookup_handler_def)
  have t1: "case Regular (failing (Error ''boom'')) of
           Regular f \<Rightarrow>
             f (JObj (rawInput ''POST'' ?req1 None))
               \<lparr>hc_req = ?req1, hc_params = context_params None\<rparr> = Inl (Error ''boom'')
         | Schema sch f \<Rightarrow>
             (\<exists>d. sch (JObj (rawInput ''POST'' ?req1 None)) = Inr (Success d)
                \<and> f d \<lparr>hc_req = ?req1, hc_params = context_params None\<rparr>
                    = Inl (Error ''boom''))"
    by (simp add: failing_def)
  have l2: "lookup_handler ?hs2 ''GET'' =
      Some (Schema (string_field ''limit'' (Some ''10'')) (failing (NonError (JStr ''boom''))))"
    by (simp add: lookup_handler_def)
  have t2: "case Schema (string_field ''limit'' (Some ''10''))
                 (failing (NonError (JStr ''boom''))) of
           Regular f \<Rightarrow>
             f (JObj (rawInput ''GET'' ?req2 None))
               \<lparr>hc_req = ?req2, hc_params = context_params None\<rparr>
               = Inl (NonError (JStr ''boom''))
         | Schema sch f \<Rightarrow>
             (\<exists>d. sch (JObj (rawInput ''GET'' ?req2 None)) = Inr (Success d)
                \<and> f d \<lparr>hc_req = ?req2, hc_params = context_params None\<rparr>
                    = Inl (NonError (JStr ''boom'')))"
    by (simp add: failing_def string_field_def rawInput_def spread2_def spread_entries_def
        context_params_def queryParams_def fromEntries_def)
  show ?thesis
    using handler_error_500 [OF l1 t1] handler_error_500 [OF l2 t2] by simp
qed

section \<open>Validation\<close>

text \<open>
  C4. For a handler with a validator: when validation of the merged input fails, the
  response is 400 with the body \<^verbatim>\<open>{error: "Validation failed", details: issues}\<close> and the
  handler function is not called; when it succeeds, the handler function is called once,
  with the validated value.
\<close>

theorem validation_gate:
  assumes "lookup_handler hs method = Some (Schema sch f)"
  shows "(\<forall>issues. sch (JObj (rawInput method req ctx)) = Inr (Failure issues) \<longrightarrow>
            response (createMethod hs method req ctx) =
              \<lparr>status = 400,
               body = JObj [(''error'', JStr ''Validation failed''),
                            (''details'', JArr issues)]\<rparr>
            \<and> handler_calls (trace (createMethod hs method req ctx)) = [])
       \<and> (\<forall>d. sch (JObj (rawInput method req ctx)) = Inr (Success d) \<longrightarrow>
            handler_calls (trace (createMethod hs method req ctx)) = [d])"
  using assms
  by (auto simp: createMethod_def catch_error_def Let_def split: sum.splits)

theorem validation_gate_witness:
  "response (createMethod [(''PUT'', Some (Schema (string_field ''id'' None) echo))] ''PUT''
       \<lparr>searchParams = [], json_body = Some (JObj [(''name'', JStr ''n'')])\<rparr> None) =
     \<lparr>status = 400,
      body = JObj [(''error'', JStr ''Validation failed''),
                   (''details'', JArr [JObj [(''path'', JArr [JStr ''id'']),
                                             (''message'', JStr ''Required'')]])]\<rparr>
   \<and> handler_calls (trace (createMethod
       [(''PUT'', Some (Schema (string_field ''id'' None) echo))] ''PUT''
       \<lparr>searchParams = [], json_body = Some (JObj [(''name'', JStr ''n'')])\<rparr> None)) = []
   \<and> handler_calls (trace (createMethod
       [(''GET'', Some (Schema (string_field ''limit'' (Some ''10'')) echo))] ''GET''
       \<lparr>searchParams = [(''page'', ''2'')], json_body = None\<rparr> None)) =
     [JObj [(''limit'', JStr ''10'')]]"
proof -
  let ?hs1 = "[(''PUT'', Some (Schema (string_field ''id'' None) echo))]"
  let ?hs2 = "[(''GET'', Some (Schema (string_field ''limit'' (Some ''10'')) echo))]"
  let ?req1 = "\<lparr>searchParams = [], json_body = Some (JObj [(''name'', JStr ''n'')])\<rparr>"
  let ?req2 = "\<lparr>searchParams = [(''page'', ''2'')], json_body = None\<rparr>"
  have l1: "lookup_handler ?hs1 ''PUT'' = Some (Schema (string_field ''id'' None) echo)"
    by (simp add: lookup_handler_def)
  have l2: "lookup_handler ?hs2 ''GET'' = Some (Schema (string_field ''limit'' (Some ''10'')) echo)"
    by (simp add: lookup_handler_def)
  have r1: "rawInput ''PUT'' ?req1 None = [(''name'', JStr ''n'')]"
    by (simp add: rawInput_def spread2_def spread_entries_def context_params_def
        parsed_body_def set_property_def)
  have r2: "rawInput ''GET'' ?req2 None = [(''page'', JStr ''2'')]"
    by (simp add: rawInput_def spread2_def spread_entries_def context_params_def
        queryParams_def fromEntries_def set_property_def)
  have s1: "string_field ''id'' None (JObj [(''name'', JStr ''n'')]) =
      Inr (Failure [JObj [(''path'', JArr [JStr ''id'']), (''message'', JStr ''Required'')]])"
    by (simp add: string_field_def issue_def)
  have s2: "string_field ''limit'' (Some ''10'') (JObj [(''page'', JStr ''2'')]) =
      Inr (Success (JObj [(''limit'', JStr ''10'')]))"
    by (simp add: string_field_def)
  show ?thesis
    using validation_gate [OF l1, of ?req1 None] validation_gate [OF l2, of ?req2 None]
    by (simp add: r1 r2 s1 s2)
qed

section \<open>Building a route\<close>

text \<open>
  C8, as stated, fails: a value is inserted as text, so a value that itself holds the
  placeholder of its key leaves that placeholder in the result although the template has
  a placeholder for every key.
\<close>

theorem buildRoute_counterexample:
  "includes_str ''/api/users/[id]'' (placeholder ''id'')
   \<and> includes_str (buildRoute ''/api/users/[id]'' [(''id'', ''[id]'')]) (placeholder ''id'')"
  by (simp add: buildRoute_def replace_def placeholder_def)

text \<open>
  The replacement string of \<^verbatim>\<open>replace\<close> is expanded, and only the first occurrence of a
  placeholder is replaced.
\<close>

lemma buildRoute_dollar_pattern:
  "buildRoute ''/api/users/[id]'' [(''id'', ''$&'')] = ''/api/users/[id]''"
  by (simp add: buildRoute_def replace_def placeholder_def)

lemma buildRoute_repeated_placeholder:
  "buildRoute ''/a/[id]/b/[id]'' [(''id'', ''1'')] = ''/a/1/b/[id]''"
  by (simp add: buildRoute_def replace_def placeholder_def)

lemma GetSubstitution_plain:
  "CHR ''$'' \<notin> set rep \<Longrightarrow> GetSubstitution matched pre post rep = rep"
  by (induction matched pre post rep rule: GetSubstitution.induct) auto

lemma startsWith_append: "startsWith (p @ r) p"
  by (induction p) auto

lemma startsWith_name:
  "CHR '']'' \<notin> set n \<Longrightarrow> CHR '']'' \<notin> set k \<Longrightarrow>
     startsWith (n @ CHR '']'' # r) (k @ [CHR '']'']) = (n = k)"
proof (induction n arbitrary: k)
  case Nil
  then show ?case by (cases k) auto
next
  case (Cons c n)
  then show ?case by (cases k) auto
qed

lemma startsWith_placeholder:
  "CHR '']'' \<notin> set n \<Longrightarrow> CHR '']'' \<notin> set k \<Longrightarrow>
     startsWith (placeholder n @ r) (placeholder k) = (n = k)"
  using startsWith_name [of n k r] by (simp add: placeholder_def)

lemma replace_from_skip:
  "CHR ''['' \<notin> set s \<Longrightarrow>
     replace_from acc (s @ r) (placeholder k) v = replace_from (acc @ s) r (placeholder k) v"
proof (induction s arbitrary: acc)
  case Nil
  show ?case by simp
next
  case (Cons c s)
  then have "replace_from acc ((c # s) @ r) (placeholder k) v =
      replace_from (acc @ [c]) (s @ r) (placeholder k) v"
    by (auto simp: placeholder_def)
  with Cons show ?case by simp
qed

lemma replace_from_other:
  assumes "CHR ''['' \<notin> set n" and "CHR '']'' \<notin> set n" and "CHR '']'' \<notin> set k" and "n \<noteq> k"
  shows "replace_from acc (placeholder n @ r) (placeholder k) v =
           replace_from (acc @ placeholder n) r (placeholder k) v"
proof -
  have "\<not> startsWith (placeholder n @ r) (placeholder k)"
    using assms by (simp add: startsWith_placeholder)
  then have "replace_from acc (placeholder n @ r) (placeholder k) v =
      replace_from (acc @ ''['') ((n @ '']'') @ r) (placeholder k) v"
    by (simp add: placeholder_def)
  also have "\<dots> = replace_from ((acc @ ''['') @ (n @ '']'')) r (placeholder k) v"
    using assms(1) by (intro replace_from_skip) simp
  finally show ?thesis by (simp add: placeholder_def)
qed

lemma replace_from_match:
  assumes "CHR ''$'' \<notin> set v"
  shows "replace_from acc (placeholder k @ r) (placeholder k) v = acc @ v @ r"
proof -
  have "startsWith (placeholder k @ r) (placeholder k)" by (rule startsWith_append)
  moreover have "placeholder k @ r = CHR ''['' # (k @ '']'' @ r)" by (simp add: placeholder_def)
  ultimately show ?thesis
    using assms by (simp add: GetSubstitution_plain del: startsWith.simps)
qed


lemma render_Cons: "render (t # ts) = render_segment t @ render ts"
  by (simp add: render_def)

lemma render_Nil: "render [] = []"
  by (simp add: render_def)

lemma substitute_absent:
  assumes "k \<notin> set (param_names ts)" and "\<And>n. n \<noteq> k \<Longrightarrow> m n = None"
  shows "map (substitute_segment m) ts = ts"
  using assms(1)
proof (induction ts rule: param_names.induct)
  case (3 n ts)
  then show ?case using assms(2) [of n] by auto
qed auto

lemma replace_from_render:
  assumes "list_all wf_segment ts" and "distinct (param_names ts)"
    and "CHR '']'' \<notin> set k" and "CHR ''$'' \<notin> set v"
    and mk: "m k = Some v" and mn: "\<And>n. n \<noteq> k \<Longrightarrow> m n = None"
  shows "replace_from acc (render ts) (placeholder k) v =
           acc @ render (map (substitute_segment m) ts)"
  using assms(1,2)
proof (induction ts arbitrary: acc rule: param_names.induct)
  case 1
  show ?case by (simp add: render_Nil placeholder_def)
next
  case (2 s ts)
  then show ?case
    by (simp add: render_Cons replace_from_skip)
next
  case (3 n ts)
  show ?case
  proof (cases "n = k")
    case True
    with 3 have "k \<notin> set (param_names ts)" by simp
    then have "map (substitute_segment m) ts = ts"
      using mn by (rule substitute_absent)
    then show ?thesis
      using True assms(4) mk by (simp add: render_Cons replace_from_match)
  next
    case False
    with 3 assms(3) mn [of n] show ?thesis
      by (simp add: render_Cons replace_from_other)
  qed
qed

lemma wf_substitute:
  assumes "list_all wf_segment ts" and "\<And>n v. m n = Some v \<Longrightarrow> CHR ''['' \<notin> set v"
  shows "list_all wf_segment (map (substitute_segment m) ts)"
  using assms(1)
proof (induction ts rule: param_names.induct)
  case (3 n ts)
  then show ?case using assms(2) [of n] by (cases "m n") auto
qed auto

lemma param_names_substitute:
  "param_names (map (substitute_segment m) ts) = filter (\<lambda>n. m n = None) (param_names ts)"
  by (induction ts rule: param_names.induct) (auto split: option.splits)

lemma substitute_step:
  assumes "m k = Some v" and "\<And>n. n \<noteq> k \<Longrightarrow> m n = None"
  shows "substitute_segment (map_of ps) (substitute_segment m t) =
           substitute_segment (map_of ((k, v) # ps)) t"
proof (cases t)
  case (Lit s)
  then show ?thesis by simp
next
  case (Param n)
  then show ?thesis using assms(1) assms(2) [of n] by (cases "n = k") simp_all
qed

lemma buildRoute_Cons:
  "buildRoute path ((k, v) # ps) = buildRoute (replace path (placeholder k) v) ps"
  by (simp add: buildRoute_def)

lemma buildRoute_render:
  assumes "list_all wf_segment ts" and "distinct (param_names ts)" and "plain_params ps"
  shows "buildRoute (render ts) ps = render (map (substitute_segment (map_of ps)) ts)"
  using assms
proof (induction ps arbitrary: ts)
  case Nil
  have "map (substitute_segment Map.empty) ts = ts"
    by (induction ts rule: param_names.induct) auto
  then show ?case by (simp add: buildRoute_def)
next
  case (Cons e ps)
  obtain k v where e: "e = (k, v)" by (cases e)
  define m where "m = (\<lambda>n. if n = k then Some v else None)"
  have mk: "m k = Some v" and mn: "\<And>n. n \<noteq> k \<Longrightarrow> m n = None"
    by (simp_all add: m_def)
  let ?ts = "map (substitute_segment m) ts"
  from Cons.prems(3) have kv: "CHR '']'' \<notin> set k" "CHR ''['' \<notin> set v" "CHR ''$'' \<notin> set v"
    and ps: "plain_params ps"
    by (simp_all add: plain_params_def e)
  have "replace (render ts) (placeholder k) v = render ?ts"
    using replace_from_render [where m = m and acc = "[]", OF Cons.prems(1,2) kv(1,3) mk mn]
    by (simp add: replace_def)
  moreover have "list_all wf_segment ?ts"
  proof (rule wf_substitute [OF Cons.prems(1)])
    fix n w assume "m n = Some w"
    then show "CHR ''['' \<notin> set w" using kv(2) by (simp add: m_def split: if_splits)
  qed
  moreover have "distinct (param_names ?ts)"
    using Cons.prems(2) by (simp add: param_names_substitute)
  ultimately have "buildRoute (render ts) (e # ps) =
      render (map (substitute_segment (map_of ps)) ?ts)"
    using Cons.IH [of ?ts] ps by (simp add: e buildRoute_Cons)
  moreover have "map (substitute_segment (map_of ps)) ?ts =
      map (substitute_segment (map_of (e # ps))) ts"
    unfolding e map_map comp_def
    using substitute_step [where m = m and k = k and v = v, OF mk mn] by simp
  ultimately show ?case by (simp only:)
qed

lemma includes_skip:
  "CHR ''['' \<notin> set s \<Longrightarrow> includes_str (s @ r) (placeholder k) = includes_str r (placeholder k)"
  by (induction s) (auto simp: placeholder_def)

lemma includes_render:
  assumes "list_all wf_segment ts" and "CHR '']'' \<notin> set k"
    and "includes_str (render ts) (placeholder k)"
  shows "k \<in> set (param_names ts)"
  using assms(1,3)
proof (induction ts rule: param_names.induct)
  case 1
  then show ?case by (simp add: render_Nil placeholder_def)
next
  case (2 s ts)
  then show ?case by (simp add: render_Cons includes_skip)
next
  case (3 n ts)
  have "includes_str (placeholder n @ render ts) (placeholder k) =
      (startsWith (placeholder n @ render ts) (placeholder k)
       \<or> includes_str ((n @ '']'') @ render ts) (placeholder k))"
    by (simp add: placeholder_def)
  also have "\<dots> = (n = k \<or> includes_str (render ts) (placeholder k))"
    using 3(2) assms(2) by (simp add: startsWith_placeholder includes_skip del: append_assoc)
  finally show ?case using 3 by (auto simp: render_Cons)
qed

text \<open>
  C8, amended. For a route template made of literal text without an opening bracket and of
  distinct placeholders whose names hold no bracket, and a parameter mapping whose keys
  hold no closing bracket and whose values hold neither an opening bracket nor a dollar
  sign, \<^verbatim>\<open>buildRoute\<close> returns the template with every placeholder whose name is a key
  replaced by the value of that key and everything else as it was; no placeholder of a
  key of the mapping occurs in the result; and
  \<^verbatim>\<open>buildRoute("/api/users/[id]", {id: "42"})\<close> is \<^verbatim>\<open>"/api/users/42"\<close>.
\<close>

theorem buildRoute_substitutes:
  assumes "list_all wf_segment ts" and "distinct (param_names ts)" and "plain_params ps"
  shows "buildRoute (render ts) ps = render (map (substitute_segment (map_of ps)) ts)
       \<and> (\<forall>k \<in> fst ` set ps. \<not> includes_str (buildRoute (render ts) ps) (placeholder k))
       \<and> buildRoute ''/api/users/[id]'' [(''id'', ''42'')] = ''/api/users/42''"
proof -
  let ?ts = "map (substitute_segment (map_of ps)) ts"
  have r: "buildRoute (render ts) ps = render ?ts"
    by (rule buildRoute_render [OF assms])
  have vals: "CHR ''['' \<notin> set v" if "map_of ps n = Some v" for n v
    using map_of_SomeD [OF that] assms(3) by (auto simp: plain_params_def list_all_iff)
  have wf: "list_all wf_segment ?ts"
    using assms(1) vals by (rule wf_substitute)
  have "\<not> includes_str (render ?ts) (placeholder k)" if k: "k \<in> fst ` set ps" for k
  proof
    assume "includes_str (render ?ts) (placeholder k)"
    moreover have "CHR '']'' \<notin> set k"
      using k assms(3) by (auto simp: plain_params_def list_all_iff)
    ultimately have "k \<in> set (param_names ?ts)"
      using wf by (intro includes_render)
    then have "map_of ps k = None" by (simp add: param_names_substitute)
    with k show False by (simp add: map_of_eq_None_iff)
  qed
  moreover have "buildRoute ''/api/users/[id]'' [(''id'', ''42'')] = ''/api/users/42''"
    by (simp add: buildRoute_def replace_def placeholder_def)
  ultimately show ?thesis using r by simp
qed

theorem buildRoute_substitutes_witness:
  "buildRoute ''/api/users/[id]/posts/[slug]'' [(''slug'', ''hello''), (''id'', ''42'')]
     = ''/api/users/42/posts/hello''
   \<and> \<not> includes_str
        (buildRoute ''/api/users/[id]/posts/[slug]'' [(''slug'', ''hello''), (''id'', ''42'')])
        (placeholder ''id'')"
proof -
  let ?ts = "[Lit ''/api/users/'', Param ''id'', Lit ''/posts/'', Param ''slug'']"
  let ?ps = "[(''slug'', ''hello''), (''id'', ''42'')]"
  have a: "list_all wf_segment ?ts" "distinct (param_names ?ts)" "plain_params ?ps"
    by (simp_all add: plain_params_def)
  show ?thesis
    using buildRoute_substitutes [OF a] by (simp add: render_def placeholder_def)
qed

section \<open>The requests and the cache of a trigger\<close>



lemma trigger_result:
  "result (trigger fetch route method input options c) =
     fst (mutationFn fetch route method input)"
  by (simp add: trigger_def Let_def split: prod.splits sum.splits)

lemma requests_trigger:
  "requests (trigger fetch route method input options c) =
     [snd (mutationFn fetch route method input)]"
  by (simp add: trigger_def Let_def split: prod.splits sum.splits)

lemma mutation_request_delete:
  "init_body (snd (mutation_request route ''DELETE'' input)) = None"
  by (simp add: mutation_request_def split: prod.splits)

lemma fetch_init_body: "init_body (fetch_init (Some options)) = init_body options"
  by (simp add: fetch_init_def Let_def)

lemma mutate_calls_trigger:
  "mutate_calls (trigger fetch route method input options c) =
     optimistic_calls route options
       @ (case fst (mutationFn fetch route method input) of
            Inr r \<Rightarrow> revalidate_calls route input options
          | Inl e \<Rightarrow> rollback_calls route options)"
  by (simp add: trigger_def Let_def split: prod.splits sum.splits)

lemma cache_after_trigger:
  "cache_after (trigger fetch route method input options c) =
     (case fst (mutationFn fetch route method input) of
        Inr r \<Rightarrow> revalidate_matching route input options (optimistic_write route options c)
      | Inl e \<Rightarrow> rollback route options (optimistic_write route options c))"
  by (simp add: trigger_def Let_def split: prod.splits sum.splits)





section \<open>Invalidation after a successful call\<close>




section \<open>Rollback\<close>

text \<open>
  C7, as stated, fails for optimistic data that is falsy: with \<^verbatim>\<open>optimisticData: 0\<close>, a
  rejected network call and \<^verbatim>\<open>rollbackOnError\<close> unset, the entry under the route
  template is not marked for refetch.
\<close>

theorem failure_rolls_back_counterexample:
  "cache_after (trigger (fetch_rejects (Error ''offline'')) ''/api/users/[id]'' ''PUT''
      (Some (JObj [(''id'', JStr ''42'')]))
      (Some \<lparr>optimisticData = Some (JNum 0), rollbackOnError = None, revalidate = None\<rparr>)
      (Map.empty(JStr ''/api/users/[id]'' \<mapsto>
         \<lparr>entry_data = Some (JNum 7), revalidating = False\<rparr>)))
     (JStr ''/api/users/[id]'') = Some \<lparr>entry_data = Some (JNum 7), revalidating = False\<rparr>"
  by (simp add: trigger_def mutationFn_def mutation_request_def input_entries_def placeholder_def
      replace_def fetcher_def fetch_rejects_def optimistic_write_def optimistic_calls_def
      rollback_def rollback_calls_def has_optimisticData_def truthy_opt_def)

text \<open>
  C7, amended. When the trigger is called with truthy optimistic data, the network call
  rejects and \<^verbatim>\<open>rollbackOnError\<close> is not \<^verbatim>\<open>false\<close>, the client forces a refetch of the
  cache entry keyed by the unresolved route template, which discards the optimistic value
  that was written to that same key before the call, and the error of the network call is
  rethrown to the caller. The calls of \<^verbatim>\<open>mutate\<close> are the write of the optimistic value
  under the route template and then the call that forces the refetch of that key; the entry
  under that key is marked for refetch, it holds the fetched value and not the optimistic
  one once the refetch has arrived, and every other entry is as before the trigger.
\<close>

theorem failure_rolls_back:
  assumes "fst (mutationFn fetch route method input) = Inl e"
    and "optimisticData opts = Some d" and "truthy d"
    and "rollbackOnError opts \<noteq> Some False"
  shows "result (trigger fetch route method input (Some opts) c) = Inl e
       \<and> mutate_calls (trigger fetch route method input (Some opts) c) =
           [MutateData route d, MutateKey route]
       \<and> (\<exists>en. cache_after (trigger fetch route method input (Some opts) c) (JStr route) = Some en
              \<and> revalidating en)
       \<and> (\<forall>fetched.
             map_option entry_data
               (refetch_arrives fetched
                  (cache_after (trigger fetch route method input (Some opts) c)) (JStr route))
               = Some (Some (fetched (JStr route))))
       \<and> (\<forall>k. k \<noteq> JStr route \<longrightarrow>
             cache_after (trigger fetch route method input (Some opts) c) k = c k)"
  using assms
  by (auto simp: trigger_result mutate_calls_trigger cache_after_trigger rollback_def
      rollback_calls_def has_optimisticData_def truthy_opt_def optimistic_write_def
      optimistic_calls_def mutate_key_def mutate_data_def refetch_arrives_def
      split: option.splits)

theorem failure_rolls_back_witness:
  "result (trigger (fetch_rejects (Error ''offline'')) ''/api/users/[id]'' ''PUT''
      (Some (JObj [(''id'', JStr ''42'')]))
      (Some \<lparr>optimisticData = Some (JObj [(''name'', JStr ''n'')]), rollbackOnError = None,
             revalidate = None\<rparr>)
      (Map.empty(JStr ''/api/users/[id]'' \<mapsto>
         \<lparr>entry_data = Some (JNum 7), revalidating = False\<rparr>))) = Inl (Error ''offline'')
   \<and> mutate_calls (trigger (fetch_rejects (Error ''offline'')) ''/api/users/[id]'' ''PUT''
      (Some (JObj [(''id'', JStr ''42'')]))
      (Some \<lparr>optimisticData = Some (JObj [(''name'', JStr ''n'')]), rollbackOnError = None,
             revalidate = None\<rparr>)
      (Map.empty(JStr ''/api/users/[id]'' \<mapsto>
         \<lparr>entry_data = Some (JNum 7), revalidating = False\<rparr>))) =
       [MutateData ''/api/users/[id]'' (JObj [(''name'', JStr ''n'')]),
        MutateKey ''/api/users/[id]'']
   \<and> (\<exists>en. cache_after (trigger (fetch_rejects (Error ''offline'')) ''/api/users/[id]'' ''PUT''
      (Some (JObj [(''id'', JStr ''42'')]))
      (Some \<lparr>optimisticData = Some (JObj [(''name'', JStr ''n'')]), rollbackOnError = None,
             revalidate = None\<rparr>)
      (Map.empty(JStr ''/api/users/[id]'' \<mapsto>
         \<lparr>entry_data = Some (JNum 7), revalidating = False\<rparr>)))
     (JStr ''/api/users/[id]'') = Some en \<and> revalidating en)
   \<and> map_option entry_data
       (refetch_arrives (\<lambda>k. JStr ''fetched'')
          (cache_after (trigger (fetch_rejects (Error ''offline'')) ''/api/users/[id]'' ''PUT''
      (Some (JObj [(''id'', JStr ''42'')]))
      (Some \<lparr>optimisticData = Some (JObj [(''name'', JStr ''n'')]), rollbackOnError = None,
             revalidate = None\<rparr>)
      (Map.empty(JStr ''/api/users/[id]'' \<mapsto>
         \<lparr>entry_data = Some (JNum 7), revalidating = False\<rparr>))))
          (JStr ''/api/users/[id]'')) = Some (Some (JStr ''fetched''))"
proof -
  let ?opts = "\<lparr>optimisticData = Some (JObj [(''name'', JStr ''n'')]), rollbackOnError = None,
             revalidate = None\<rparr>"
  have m: "fst (mutationFn (fetch_rejects (Error ''offline'')) ''/api/users/[id]'' ''PUT''
      (Some (JObj [(''id'', JStr ''42'')]))) = Inl (Error ''offline'')"
    by (simp add: mutationFn_def mutation_request_def input_entries_def placeholder_def
        replace_def fetcher_def fetch_rejects_def)
  have a: "optimisticData ?opts = Some (JObj [(''name'', JStr ''n'')])"
    "truthy (JObj [(''name'', JStr ''n'')])" "rollbackOnError ?opts \<noteq> Some False"
    by simp_all
  show ?thesis
    using failure_rolls_back [OF m a, where c = "Map.empty(JStr ''/api/users/[id]'' \<mapsto>
         \<lparr>entry_data = Some (JNum 7), revalidating = False\<rparr>)"]
    by blast
qed

section \<open>DELETE\<close>

text \<open>
  C9. A trigger with the method DELETE issues one request and that request has no body,
  whatever the input is and however many of its fields are not path parameters.
\<close>

theorem delete_sends_no_body:
  "map (\<lambda>rq. init_body (snd rq)) (requests (trigger fetch route ''DELETE'' input options c))
     = [None]"
  using mutation_request_delete [of route input]
  by (auto simp: requests_trigger mutationFn_def fetch_init_body split: prod.splits)

section \<open>Falsy optimistic data\<close>

text \<open>
  C10. With optimistic data that is falsy, the trigger does what it does with no
  optimistic data: the optimistic write leaves the cache as it is, and when the network
  call rejects the cache after the trigger is the cache before it, also when
  \<^verbatim>\<open>rollbackOnError\<close> is not \<^verbatim>\<open>false\<close>.
\<close>

theorem falsy_optimistic_data_is_none:
  assumes "optimisticData opts = Some d" and "\<not> truthy d"
  shows "trigger fetch route method input (Some opts) c =
           trigger fetch route method input (Some (opts\<lparr>optimisticData := None\<rparr>)) c
       \<and> optimistic_write route (Some opts) c = c
       \<and> (\<forall>e. fst (mutationFn fetch route method input) = Inl e \<longrightarrow>
            cache_after (trigger fetch route method input (Some opts) c) = c)"
  using assms
  by (auto simp: trigger_def optimistic_write_def optimistic_calls_def rollback_def
      rollback_calls_def has_optimisticData_def truthy_opt_def revalidate_matching_def
      revalidate_calls_def Let_def split: prod.splits sum.splits)

theorem falsy_optimistic_data_is_none_witness:
  "\<not> truthy (JStr [])
   \<and> optimistic_write ''/api/posts''
       (Some \<lparr>optimisticData = Some (JStr []), rollbackOnError = Some True, revalidate = None\<rparr>)
       (Map.empty(JStr ''/api/posts'' \<mapsto> \<lparr>entry_data = Some (JNum 7), revalidating = False\<rparr>))
     = Map.empty(JStr ''/api/posts'' \<mapsto> \<lparr>entry_data = Some (JNum 7), revalidating = False\<rparr>)
   \<and> cache_after (trigger (fetch_rejects (Error ''offline'')) ''/api/posts'' ''POST''
       (Some (JObj [(''title'', JStr ''t'')]))
       (Some \<lparr>optimisticData = Some (JStr []), rollbackOnError = Some True, revalidate = None\<rparr>)
       (Map.empty(JStr ''/api/posts'' \<mapsto> \<lparr>entry_data = Some (JNum 7), revalidating = False\<rparr>)))
     = Map.empty(JStr ''/api/posts'' \<mapsto> \<lparr>entry_data = Some (JNum 7), revalidating = False\<rparr>)"
proof -
  let ?opts = "\<lparr>optimisticData = Some (JStr []), rollbackOnError = Some True, revalidate = None\<rparr>"
  have a: "optimisticData ?opts = Some (JStr [])" "\<not> truthy (JStr [])"
    by simp_all
  have m: "fst (mutationFn (fetch_rejects (Error ''offline'')) ''/api/posts'' ''POST''
      (Some (JObj [(''title'', JStr ''t'')]))) = Inl (Error ''offline'')"
    by (simp add: mutationFn_def mutation_request_def input_entries_def placeholder_def
        set_property_def fetcher_def fetch_rejects_def)
  show ?thesis
    using falsy_optimistic_data_is_none [OF a, of "fetch_rejects (Error ''offline'')"
        "''/api/posts''" "''POST''" "Some (JObj [(''title'', JStr ''t'')])"
        "Map.empty(JStr ''/api/posts'' \<mapsto> \<lparr>entry_data = Some (JNum 7), revalidating = False\<rparr>)"] m a(2)
    by blast
qed

end
